theory Spec2Isabelle
  imports Main
begin

section \<open>Values, descriptors and errors\<close>

text \<open>
  The matchers of \<^verbatim>\<open>Signatures/Matchers.py\<close> are built from a descriptor that is
  either a string, an integer or a JSON object; Python tells them apart with
  \<^verbatim>\<open>isinstance\<close>. The descriptor is a value of \<open>pyobj\<close>; a dictionary keeps its
  entries as an association list.
\<close>

datatype pyobj =
    PyStr string
  | PyInt int
  | PyNone
  | PyDict "(string \<times> pyobj) list"

text \<open>
  Every failure of the source is a \<^verbatim>\<open>RuntimeError\<close> told apart by its message:
  \<^verbatim>\<open>"Error in regular expression: %s"\<close> is \<open>InvalidPatternError\<close>,
  \<^verbatim>\<open>"Unknown match operator specified: %s"\<close> is \<open>UnknownOperatorError\<close>,
  \<^verbatim>\<open>"Invalid number specified: %s"\<close> is \<open>InvalidNumberError\<close>,
  \<^verbatim>\<open>"Invalid type %s in NumberMatch."\<close> is \<open>InvalidDescriptorTypeError\<close>.
  \<open>MissingFieldError\<close> comes from the JSON helper. \<open>IndexError\<close> and
  \<open>AttributeError\<close> are the interpreter's own exceptions, for a list read out of range
  and a method call on \<^verbatim>\<open>None\<close>.
\<close>

datatype error =
    MissingFieldError string
  | UnknownOperatorError string
  | InvalidPatternError string
  | InvalidNumberError string
  | InvalidDescriptorTypeError
  | IndexError
  | AttributeError

section \<open>String operations of the interpreter\<close>

text \<open>\<^verbatim>\<open>s.startswith(p)\<close> and \<^verbatim>\<open>s.endswith(p)\<close>.\<close>

fun startswith :: "string \<Rightarrow> string \<Rightarrow> bool" where
  "startswith s [] = True"
| "startswith [] (p # ps) = False"
| "startswith (c # cs) (p # ps) = (c = p \<and> startswith cs ps)"

definition endswith :: "string \<Rightarrow> string \<Rightarrow> bool" where
  "endswith s p = startswith (rev s) (rev p)"

text \<open>\<^verbatim>\<open>p in s\<close> on strings: the scan tries every start position of \<open>s\<close> in turn.\<close>

fun str_contains :: "string \<Rightarrow> string \<Rightarrow> bool" where
  "str_contains p [] = startswith [] p"
| "str_contains p (c # cs) = (startswith (c # cs) p \<or> str_contains p cs)"

text \<open>\<^verbatim>\<open>s[1:-1]\<close>: the slice is empty when \<open>s\<close> has fewer than two characters.\<close>

definition slice_1_m1 :: "string \<Rightarrow> string" where
  "slice_1_m1 s = butlast (tl s)"

text \<open>\<^verbatim>\<open>s.lower()\<close> on a byte string: only the letters A to Z change.\<close>

definition lower_char :: "char \<Rightarrow> char" where
  "lower_char c =
     (case map_of (zip ''ABCDEFGHIJKLMNOPQRSTUVWXYZ'' ''abcdefghijklmnopqrstuvwxyz'') c of
        Some d \<Rightarrow> d
      | None \<Rightarrow> c)"

definition lower :: "string \<Rightarrow> string" where
  "lower s = map lower_char s"

text \<open>
  \<^verbatim>\<open>c.isspace()\<close> on a byte string: space, tab, line feed, vertical tab, form feed,
  carriage return.
\<close>

definition isspace :: "char \<Rightarrow> bool" where
  "isspace c = (c \<in> set [CHR 0x20, CHR 0x09, CHR 0x0A, CHR 0x0B, CHR 0x0C, CHR 0x0D])"

text \<open>
  \<^verbatim>\<open>s.split(None, 1)\<close>: leading whitespace is skipped, the first token runs to the
  next whitespace, and what follows the whitespace after it (if anything) is the second
  component, kept whole with its trailing whitespace.
\<close>

definition split_ws1 :: "string \<Rightarrow> string list" where
  "split_ws1 s =
     (let s1 = dropWhile isspace s in
      if s1 = [] then []
      else
        let tok = takeWhile (\<lambda>c. \<not> isspace c) s1;
            r = dropWhile isspace (dropWhile (\<lambda>c. \<not> isspace c) s1)
        in if r = [] then [tok] else [tok, r])"

text \<open>
  \<^verbatim>\<open>long(s, 16)\<close> on a byte string: optional whitespace, an optional sign, optional
  whitespace, an optional \<^verbatim>\<open>0x\<close> or \<^verbatim>\<open>0X\<close>, at least one hexadecimal digit, an
  optional \<^verbatim>\<open>L\<close> or \<^verbatim>\<open>l\<close>, optional whitespace, end of string. \<open>None\<close> is the
  \<^verbatim>\<open>ValueError\<close>.
\<close>

definition hex_digit :: "char \<Rightarrow> nat option" where
  "hex_digit c =
     map_of
       (zip ''0123456789abcdef'' [0, 1, 2, 3, 4, 5, 6, 7, 8, 9, 10, 11, 12, 13, 14, 15]
        @ zip ''ABCDEF'' [10, 11, 12, 13, 14, 15]) c"

definition is_hex :: "char \<Rightarrow> bool" where
  "is_hex c = (hex_digit c \<noteq> None)"

definition hex_value :: "string \<Rightarrow> nat" where
  "hex_value ds = foldl (\<lambda>acc c. acc * 16 + (case hex_digit c of Some d \<Rightarrow> d | None \<Rightarrow> 0)) 0 ds"

definition skip_sign :: "string \<Rightarrow> int \<times> string" where
  "skip_sign s =
     (case s of
        [] \<Rightarrow> (1, s)
      | c # r \<Rightarrow> if c = CHR ''+'' then (1, r) else if c = CHR ''-'' then (- 1, r) else (1, s))"

definition skip_0x :: "string \<Rightarrow> string" where
  "skip_0x s =
     (case s of
        c # x # r \<Rightarrow> if c = CHR ''0'' \<and> (x = CHR ''x'' \<or> x = CHR ''X'') then r else s
      | _ \<Rightarrow> s)"

definition skip_L :: "string \<Rightarrow> string" where
  "skip_L s =
     (case s of
        [] \<Rightarrow> s
      | c # r \<Rightarrow> if c = CHR ''L'' \<or> c = CHR ''l'' then r else s)"

definition py_long16 :: "string \<Rightarrow> int option" where
  "py_long16 s =
     (let (sign, s2) = skip_sign (dropWhile isspace s);
          s4 = skip_0x (dropWhile isspace s2);
          ds = takeWhile is_hex s4;
          rest = dropWhile isspace (skip_L (dropWhile is_hex s4))
      in if ds = [] \<or> rest \<noteq> [] then None else Some (sign * int (hex_value ds)))"

section \<open>The regular-expression engine\<close>

text \<open>
  \<^verbatim>\<open>re.compile\<close> and \<^verbatim>\<open>search\<close> belong to the interpreter's library, not to this
  repository, so the matcher below takes them as parameters: \<open>rc\<close> returns the compiled
  pattern or the message of \<^verbatim>\<open>re.error\<close>, \<open>rs\<close> returns the match or \<open>None\<close>.

  Where a statement needs to know what a pattern matches, the library is modelled on
  the patterns made of ordinary characters, the dot (any character but the line feed)
  and the star after one of them. \<open>frag_compile\<close> answers \<open>None\<close> for a pattern
  outside this fragment, and says nothing about it; for a pattern inside, it answers
  what \<^verbatim>\<open>re.compile\<close> does with it: the message of \<^verbatim>\<open>re.error\<close>, or the compiled
  pattern, which is the list of its items.
\<close>

datatype atom = Lit char | AnyChar

datatype item = One atom | Many atom

fun atom_ok :: "atom \<Rightarrow> char \<Rightarrow> bool" where
  "atom_ok (Lit a) c = (a = c)"
| "atom_ok AnyChar c = (c \<noteq> CHR 0x0A)"

definition re_special :: "char \<Rightarrow> bool" where
  "re_special c = (c \<in> set (CHR 0x5C # ''.^$*+?{}[]|()''))"

fun frag_compile :: "string \<Rightarrow> (string + item list) option" where
  "frag_compile [] = Some (Inr [])"
| "frag_compile (c # cs) =
     (if c = CHR ''*'' then Some (Inl ''nothing to repeat'')
      else if c \<noteq> CHR ''.'' \<and> re_special c then None
      else
        let a = (if c = CHR ''.'' then AnyChar else Lit c) in
        case cs of
          [] \<Rightarrow> Some (Inr [One a])
        | d # ds \<Rightarrow>
            if d = CHR ''*'' then
              (case ds of
                 [] \<Rightarrow> Some (Inr [Many a])
               | e # es \<Rightarrow>
                   if e = CHR ''*'' then Some (Inl ''multiple repeat'')
                   else
                     (case frag_compile ds of
                        None \<Rightarrow> None
                      | Some (Inl m) \<Rightarrow> Some (Inl m)
                      | Some (Inr r) \<Rightarrow> Some (Inr (Many a # r))))
            else
              (case frag_compile cs of
                 None \<Rightarrow> None
               | Some (Inl m) \<Rightarrow> Some (Inl m)
               | Some (Inr r) \<Rightarrow> Some (Inr (One a # r))))"

text \<open>
  \<open>match_here r s\<close>: the pattern matches at the start of \<open>s\<close>. A starred item first
  tries to take one more character and falls back to taking none.
\<close>

fun match_here :: "item list \<Rightarrow> string \<Rightarrow> bool" where
  "match_here [] s = True"
| "match_here (One a # r) [] = False"
| "match_here (One a # r) (c # cs) = (atom_ok a c \<and> match_here r cs)"
| "match_here (Many a # r) [] = match_here r []"
| "match_here (Many a # r) (c # cs) =
     ((atom_ok a c \<and> match_here (Many a # r) cs) \<or> match_here r (c # cs))"

text \<open>\<open>frag_search r s\<close>: the start of the leftmost match, or \<open>None\<close>.\<close>

fun frag_search :: "item list \<Rightarrow> string \<Rightarrow> nat option" where
  "frag_search r [] = (if match_here r [] then Some 0 else None)"
| "frag_search r (c # cs) =
     (if match_here r (c # cs) then Some 0 else map_option Suc (frag_search r cs))"

text \<open>The strings a compiled pattern matches in full, for stating what a match is.\<close>

fun lang :: "item list \<Rightarrow> string set" where
  "lang [] = {[]}"
| "lang (One a # r) = {c # w | c w. atom_ok a c \<and> w \<in> lang r}"
| "lang (Many a # r) = {u @ w | u w. (\<forall>c \<in> set u. atom_ok a c) \<and> w \<in> lang r}"

text \<open>
  An engine for every pattern: \<open>re_compile\<close> and \<open>re_search\<close> take the library's own
  compile and search, \<open>lib\<close> and \<open>ls\<close>, as two more parameters and hand them the
  patterns outside the fragment. A compiled pattern is then either a list of items or
  whatever the library made.
\<close>

datatype 'o pattern = Frag "item list" | Lib 'o

definition re_compile :: "(string \<Rightarrow> string + 'o) \<Rightarrow> string \<Rightarrow> string + 'o pattern" where
  "re_compile lib p =
     (case frag_compile p of
        Some (Inl m) \<Rightarrow> Inl m
      | Some (Inr r) \<Rightarrow> Inr (Frag r)
      | None \<Rightarrow> (case lib p of Inl m \<Rightarrow> Inl m | Inr c \<Rightarrow> Inr (Lib c)))"

fun re_search :: "('o \<Rightarrow> string \<Rightarrow> nat option) \<Rightarrow> 'o pattern \<Rightarrow> string \<Rightarrow> nat option" where
  "re_search ls (Frag r) s = frag_search r s"
| "re_search ls (Lib c) s = ls c s"

text \<open>
  A statement about one concrete descriptor needs some value for \<open>lib\<close> and \<open>ls\<close>.
  Every pattern of such a statement below is inside the fragment, where neither is
  called, so that any value gives the same result; \<open>no_library\<close> and
  \<open>no_library_search\<close> are the values used, and stand for no behaviour of the library.
\<close>

definition no_library :: "string \<Rightarrow> string + unit" where
  "no_library p = Inl ''outside the fragment''"

definition no_library_search :: "unit \<Rightarrow> string \<Rightarrow> nat option" where
  "no_library_search c s = None"

section \<open>StringMatch\<close>

record 'r StringMatch =
  sm_isPCRE :: bool
  sm_compiledValue :: "'r option"
  sm_value :: string

text \<open>
  Modelled from the spec: \<^verbatim>\<open>JSONHelper.getStringChecked(obj, key, mandatory)\<close>, whose
  module is not among the sources. The spec has the required field fail with
  \<open>MissingFieldError\<close> if absent or not a string, and an optional field absent give no
  value.
\<close>

definition getStringChecked :: "pyobj \<Rightarrow> string \<Rightarrow> bool \<Rightarrow> error + string option" where
  "getStringChecked obj key mandatory =
     (case obj of
        PyDict kvs \<Rightarrow>
          (case map_of kvs key of
             None \<Rightarrow> if mandatory then Inl (MissingFieldError key) else Inr None
           | Some (PyStr s) \<Rightarrow> Inr (Some s)
           | Some _ \<Rightarrow> Inl (MissingFieldError key))
      | _ \<Rightarrow> Inl InvalidDescriptorTypeError)"

text \<open>
  The constructor. A string descriptor is converted with \<^verbatim>\<open>str\<close> and tested for the
  short form; anything else is handed to the JSON helper. The helper never answers
  \<^verbatim>\<open>None\<close> for a mandatory key, so the branch for that answer is never taken; it is
  there because the helper's result type has it.
\<close>

definition StringMatch_init ::
  "(string \<Rightarrow> string + 'r) \<Rightarrow> pyobj \<Rightarrow> error + 'r StringMatch" where
  "StringMatch_init rc obj =
     (case obj of
        PyStr s \<Rightarrow>
          if startswith s ''/'' \<and> endswith s ''/'' then
            (case rc (slice_1_m1 s) of
               Inl e \<Rightarrow> Inl (InvalidPatternError e)
             | Inr r \<Rightarrow>
                 Inr \<lparr>sm_isPCRE = True, sm_compiledValue = Some r, sm_value = slice_1_m1 s\<rparr>)
          else Inr \<lparr>sm_isPCRE = False, sm_compiledValue = None, sm_value = s\<rparr>
      | _ \<Rightarrow>
          (case getStringChecked obj ''value'' True of
             Inl e \<Rightarrow> Inl e
           | Inr None \<Rightarrow> Inl (MissingFieldError ''value'')
           | Inr (Some v) \<Rightarrow>
               (case getStringChecked obj ''matchType'' False of
                  Inl e \<Rightarrow> Inl e
                | Inr None \<Rightarrow> Inr \<lparr>sm_isPCRE = False, sm_compiledValue = None, sm_value = v\<rparr>
                | Inr (Some matchType) \<Rightarrow>
                    if lower matchType = ''contains'' then
                      Inr \<lparr>sm_isPCRE = False, sm_compiledValue = None, sm_value = v\<rparr>
                    else if lower matchType = ''pcre'' then
                      (case rc v of
                         Inl e \<Rightarrow> Inl (InvalidPatternError e)
                       | Inr r \<Rightarrow>
                           Inr \<lparr>sm_isPCRE = True, sm_compiledValue = Some r, sm_value = v\<rparr>)
                    else Inl (UnknownOperatorError matchType))))"

text \<open>
  \<^verbatim>\<open>matches\<close>: a regex-mode predicate calls \<^verbatim>\<open>search\<close> on its compiled pattern, which
  raises \<^verbatim>\<open>AttributeError\<close> if there is none.
\<close>

definition StringMatch_matches ::
  "('r \<Rightarrow> string \<Rightarrow> 'm option) \<Rightarrow> 'r StringMatch \<Rightarrow> string \<Rightarrow> error + bool" where
  "StringMatch_matches rs sm val =
     (if sm_isPCRE sm then
        (case sm_compiledValue sm of
           None \<Rightarrow> Inl AttributeError
         | Some r \<Rightarrow> Inr (rs r val \<noteq> None))
      else Inr (str_contains (sm_value sm) val))"

section \<open>NumberMatch\<close>

datatype NumberMatchType = GE | GT | LE | LT

record NumberMatch =
  nm_matchType :: "NumberMatchType option"
  nm_value :: "int option"

text \<open>
  The constructor. \<^verbatim>\<open>numIdx\<close> and \<^verbatim>\<open>self.matchType\<close> are assigned in the branch
  for two components and read after it, so that branch returns the pair of them; reading
  \<^verbatim>\<open>numberMatchComponents[numIdx]\<close> raises \<^verbatim>\<open>IndexError\<close> when a string of
  whitespace has left no component.
\<close>

definition NumberMatch_init :: "pyobj \<Rightarrow> error + NumberMatch" where
  "NumberMatch_init obj =
     (case obj of
        PyStr s \<Rightarrow>
          if length s > 0 then
            (let numberMatchComponents = split_ws1 s in
             case
               (if length numberMatchComponents > 1 then
                  (let matchType = hd numberMatchComponents in
                   if matchType = ''=='' then Inr (1, None)
                   else if matchType = ''<'' then Inr (1, Some LT)
                   else if matchType = ''<='' then Inr (1, Some LE)
                   else if matchType = ''>'' then Inr (1, Some GT)
                   else if matchType = ''>='' then Inr (1, Some GE)
                   else Inl (UnknownOperatorError matchType))
                else Inr (0::nat, None))
             of
               Inl e \<Rightarrow> Inl e
             | Inr (numIdx, mt) \<Rightarrow>
                 if numIdx < length numberMatchComponents then
                   (case py_long16 (numberMatchComponents ! numIdx) of
                      None \<Rightarrow> Inl (InvalidNumberError (numberMatchComponents ! numIdx))
                    | Some n \<Rightarrow> Inr \<lparr>nm_matchType = mt, nm_value = Some n\<rparr>)
                 else Inl IndexError)
          else Inr \<lparr>nm_matchType = None, nm_value = None\<rparr>
      | PyInt n \<Rightarrow> Inr \<lparr>nm_matchType = None, nm_value = Some n\<rparr>
      | _ \<Rightarrow> Inl InvalidDescriptorTypeError)"

text \<open>
  The interpreter orders \<^verbatim>\<open>None\<close> below every integer: a comparison of an integer
  with \<^verbatim>\<open>None\<close> does not raise, and is written out here.
\<close>

definition py_ge :: "int \<Rightarrow> int option \<Rightarrow> bool" where
  "py_ge a b = (case b of None \<Rightarrow> True | Some r \<Rightarrow> a \<ge> r)"

definition py_gt :: "int \<Rightarrow> int option \<Rightarrow> bool" where
  "py_gt a b = (case b of None \<Rightarrow> True | Some r \<Rightarrow> a > r)"

definition py_le :: "int \<Rightarrow> int option \<Rightarrow> bool" where
  "py_le a b = (case b of None \<Rightarrow> False | Some r \<Rightarrow> a \<le> r)"

definition py_lt :: "int \<Rightarrow> int option \<Rightarrow> bool" where
  "py_lt a b = (case b of None \<Rightarrow> False | Some r \<Rightarrow> a < r)"

definition NumberMatch_matches :: "NumberMatch \<Rightarrow> int option \<Rightarrow> error + bool" where
  "NumberMatch_matches nm val =
     (case val of
        None \<Rightarrow> Inr (nm_value nm = None)
      | Some v \<Rightarrow>
          if nm_matchType nm = Some GE then Inr (py_ge v (nm_value nm))
          else if nm_matchType nm = Some GT then Inr (py_gt v (nm_value nm))
          else if nm_matchType nm = Some LE then Inr (py_le v (nm_value nm))
          else if nm_matchType nm = Some LT then Inr (py_lt v (nm_value nm))
          else Inr (Some v = nm_value nm))"

section \<open>The POST loop of Collector.submit\<close>

text \<open>
  \<^verbatim>\<open>Collector.submit\<close> assembles the crash record and then posts it in a loop:
  \<^verbatim>\<open>
  current_timeout = 2
  while True:
      response = requests.post(...)
      if response.status_code != requests.codes["created"]:
          retry_codes = [500, 502, 503, 504]
          if response.status_code in retry_codes and current_timeout <= 64:
              time.sleep(current_timeout)
              current_timeout *= 2
              continue
          raise self.__serverError(response)
      else:
          break
  \<close>
  The server is the function \<open>response\<close> from the number of the request, counted from
  \<open>0\<close>, to the status code it answers. The loop returns its outcome, the number of
  requests posted and the arguments of \<^verbatim>\<open>time.sleep\<close> in order. As written, the loop
  need not terminate from every value of \<open>current_timeout\<close> (from \<open>0\<close> it never gives
  up), so not returning is the value \<open>None\<close>.
\<close>

datatype submit_error = ServerError int

definition retry_codes :: "int list" where
  "retry_codes = [500, 502, 503, 504]"

definition codes_created :: int where
  "codes_created = 201"

partial_function (option) submit_loop ::
  "(nat \<Rightarrow> int) \<Rightarrow> nat \<Rightarrow> int \<Rightarrow> int list \<Rightarrow> ((submit_error + unit) \<times> nat \<times> int list) option"
where
  "submit_loop response n current_timeout slept =
     (let status_code = response n in
      if status_code \<noteq> codes_created then
        if status_code \<in> set retry_codes \<and> current_timeout \<le> 64 then
          submit_loop response (Suc n) (current_timeout * 2) (slept @ [current_timeout])
        else Some (Inl (ServerError status_code), Suc n, slept)
      else Some (Inr (), Suc n, slept))"

text \<open>\<^verbatim>\<open>submit\<close> enters the loop with \<^verbatim>\<open>current_timeout = 2\<close>.\<close>

definition submit :: "(nat \<Rightarrow> int) \<Rightarrow> ((submit_error + unit) \<times> nat \<times> int list) option" where
  "submit response = submit_loop response 0 2 []"

section \<open>Vocabulary of the statements\<close>

text \<open>
  The operator tokens of a numeric descriptor and the match type each stands for;
  \<open>Some None\<close> is the default comparison, equality, which the source keeps as
  \<^verbatim>\<open>matchType = None\<close>.
\<close>

definition operator_tokens :: "string list" where
  "operator_tokens = [''=='', ''<'', ''<='', ''>'', ''>='']"

definition operator_of :: "string \<Rightarrow> NumberMatchType option option" where
  "operator_of t =
     (if t = ''=='' then Some None
      else if t = ''<'' then Some (Some LT)
      else if t = ''<='' then Some (Some LE)
      else if t = ''>'' then Some (Some GT)
      else if t = ''>='' then Some (Some GE)
      else None)"

text \<open>\<open>matches_prefix r s\<close>: some prefix of \<open>s\<close> is in the language of \<open>r\<close>.\<close>

definition matches_prefix :: "item list \<Rightarrow> string \<Rightarrow> bool" where
  "matches_prefix r s = (\<exists>w suf. s = w @ suf \<and> w \<in> lang r)"

text \<open>
  \<open>backoff ct j\<close>: the first \<open>j\<close> sleeps of a loop entered with timeout \<open>ct\<close>.
  \<open>outcome response m\<close>: how the loop ends when request \<open>m\<close> is the last one.
\<close>

definition backoff :: "int \<Rightarrow> nat \<Rightarrow> int list" where
  "backoff ct j = map (\<lambda>i. ct * 2 ^ i) [0..<j]"

definition outcome :: "(nat \<Rightarrow> int) \<Rightarrow> nat \<Rightarrow> submit_error + unit" where
  "outcome response m =
     (if response m = codes_created then Inr () else Inl (ServerError (response m)))"

text \<open>Two servers: one that recovers at the third request, one that never does.\<close>

definition flaky_server :: "nat \<Rightarrow> int" where
  "flaky_server n = (if n < 2 then 503 else 201)"

definition failing_server :: "nat \<Rightarrow> int" where
  "failing_server n = 500"

section \<open>Literal matching\<close>

lemma startswith_iff: "startswith s p \<longleftrightarrow> (\<exists>suf. s = p @ suf)"
  by (induction s p rule: startswith.induct) auto

lemma str_contains_iff: "str_contains p s \<longleftrightarrow> (\<exists>pre suf. s = pre @ p @ suf)"
proof (induction s)
  case Nil
  show ?case by (simp add: startswith_iff)
next
  case (Cons c cs)
  show ?case
  proof
    assume "str_contains p (c # cs)"
    then consider "startswith (c # cs) p" | "str_contains p cs" by auto
    then show "\<exists>pre suf. c # cs = pre @ p @ suf"
    proof cases
      case 1
      then obtain suf where "c # cs = p @ suf" by (auto simp: startswith_iff)
      then have "c # cs = [] @ p @ suf" by simp
      then show ?thesis by blast
    next
      case 2
      then obtain pre suf where "cs = pre @ p @ suf" using Cons.IH by blast
      then have "c # cs = (c # pre) @ p @ suf" by simp
      then show ?thesis by blast
    qed
  next
    assume "\<exists>pre suf. c # cs = pre @ p @ suf"
    then obtain pre suf where e: "c # cs = pre @ p @ suf" by blast
    show "str_contains p (c # cs)"
    proof (cases pre)
      case Nil
      with e have "startswith (c # cs) p" by (auto simp: startswith_iff)
      then show ?thesis by simp
    next
      case (Cons d pre')
      with e have "cs = pre' @ p @ suf" by simp
      then have "str_contains p cs" using Cons.IH by blast
      then show ?thesis by simp
    qed
  qed
qed

text \<open>
  C1. A literal-mode text predicate with pattern \<open>p\<close> matches a candidate \<open>s\<close> exactly
  when \<open>p\<close> occurs in \<open>s\<close> as a contiguous run of the same characters.
\<close>

theorem literal_matches_iff_substring:
  "\<not> sm_isPCRE sm \<Longrightarrow>
   StringMatch_matches rs sm s = Inr (\<exists>pre suf. s = pre @ sm_value sm @ suf)"
  by (simp add: StringMatch_matches_def str_contains_iff)

theorem literal_matches_iff_substring_witness:
  "\<not> sm_isPCRE \<lparr>sm_isPCRE = False, sm_compiledValue = None :: unit pattern option, sm_value = ''SEGV''\<rparr> \<and>
   StringMatch_matches (re_search no_library_search) \<lparr>sm_isPCRE = False, sm_compiledValue = None, sm_value = ''SEGV''\<rparr>
     ''signal SEGV received'' = Inr True \<and>
   (\<exists>pre suf. ''signal SEGV received'' = pre @ ''SEGV'' @ suf)"
proof -
  let ?sm = "\<lparr>sm_isPCRE = False, sm_compiledValue = None :: unit pattern option, sm_value = ''SEGV''\<rparr>"
  have h: "\<not> sm_isPCRE ?sm" by simp
  have m: "StringMatch_matches (re_search no_library_search) ?sm ''signal SEGV received'' = Inr True"
    by (simp add: StringMatch_matches_def)
  from literal_matches_iff_substring [OF h, of "re_search no_library_search" "''signal SEGV received''"] m
  show ?thesis by simp
qed

section \<open>Regular-expression matching\<close>

text \<open>The backtracking matcher decides membership of a prefix in the language.\<close>

lemma mp_nil: "matches_prefix [] s"
  by (simp add: matches_prefix_def)

lemma mp_one_nil: "\<not> matches_prefix (One a # r) []"
  by (simp add: matches_prefix_def)

lemma mp_one_cons: "matches_prefix (One a # r) (c # cs) \<longleftrightarrow> atom_ok a c \<and> matches_prefix r cs"
  by (auto simp: matches_prefix_def Cons_eq_append_conv)

lemma mp_many_nil: "matches_prefix (Many a # r) [] \<longleftrightarrow> matches_prefix r []"
  by (simp add: matches_prefix_def)

lemma mp_many_cons:
  "matches_prefix (Many a # r) (c # cs) \<longleftrightarrow>
     (atom_ok a c \<and> matches_prefix (Many a # r) cs) \<or> matches_prefix r (c # cs)"
proof
  assume "matches_prefix (Many a # r) (c # cs)"
  then obtain u w suf where e: "c # cs = (u @ w) @ suf" and u: "\<forall>x \<in> set u. atom_ok a x"
    and w: "w \<in> lang r"
    by (auto simp: matches_prefix_def)
  show "(atom_ok a c \<and> matches_prefix (Many a # r) cs) \<or> matches_prefix r (c # cs)"
  proof (cases u)
    case Nil
    with e w have "matches_prefix r (c # cs)" by (auto simp: matches_prefix_def)
    then show ?thesis by simp
  next
    case (Cons d u')
    with e u have "atom_ok a c" and "cs = (u' @ w) @ suf" and "\<forall>x \<in> set u'. atom_ok a x"
      by auto
    with w have "atom_ok a c" and "cs = (u' @ w) @ suf \<and> u' @ w \<in> lang (Many a # r)"
      by auto
    then have "atom_ok a c \<and> matches_prefix (Many a # r) cs"
      unfolding matches_prefix_def by blast
    then show ?thesis by simp
  qed
next
  assume "(atom_ok a c \<and> matches_prefix (Many a # r) cs) \<or> matches_prefix r (c # cs)"
  then show "matches_prefix (Many a # r) (c # cs)"
  proof
    assume h: "atom_ok a c \<and> matches_prefix (Many a # r) cs"
    then obtain u w suf where e: "cs = (u @ w) @ suf" and u: "\<forall>x \<in> set u. atom_ok a x"
      and w: "w \<in> lang r"
      by (auto simp: matches_prefix_def)
    from h u have "\<forall>x \<in> set (c # u). atom_ok a x" by simp
    moreover from e have "c # cs = ((c # u) @ w) @ suf" by simp
    ultimately show ?thesis using w unfolding matches_prefix_def lang.simps by blast
  next
    assume "matches_prefix r (c # cs)"
    then obtain w suf where "c # cs = w @ suf" and "w \<in> lang r"
      by (auto simp: matches_prefix_def)
    then have "c # cs = ([] @ w) @ suf \<and> (\<forall>x \<in> set []. atom_ok a x) \<and> w \<in> lang r" by simp
    then show ?thesis unfolding matches_prefix_def lang.simps by blast
  qed
qed

lemma match_here_iff: "match_here r s \<longleftrightarrow> matches_prefix r s"
  by (induction r s rule: match_here.induct)
     (auto simp: mp_nil mp_one_nil mp_one_cons mp_many_nil mp_many_cons)

lemma frag_search_iff:
  "frag_search r s \<noteq> None \<longleftrightarrow> (\<exists>pre mid suf. s = pre @ mid @ suf \<and> mid \<in> lang r)"
proof (induction s)
  case Nil
  show ?case by (simp add: match_here_iff matches_prefix_def)
next
  case (Cons c cs)
  show ?case
  proof
    assume "frag_search r (c # cs) \<noteq> None"
    then consider "match_here r (c # cs)" | "frag_search r cs \<noteq> None"
      by (auto split: if_splits)
    then show "\<exists>pre mid suf. c # cs = pre @ mid @ suf \<and> mid \<in> lang r"
    proof cases
      case 1
      then obtain w suf where "c # cs = [] @ w @ suf" and "w \<in> lang r"
        by (auto simp: match_here_iff matches_prefix_def)
      then show ?thesis by blast
    next
      case 2
      then obtain pre mid suf where "cs = pre @ mid @ suf" and m: "mid \<in> lang r"
        using Cons.IH by blast
      then have "c # cs = (c # pre) @ mid @ suf" by simp
      with m show ?thesis by blast
    qed
  next
    assume "\<exists>pre mid suf. c # cs = pre @ mid @ suf \<and> mid \<in> lang r"
    then obtain pre mid suf where e: "c # cs = pre @ mid @ suf" and m: "mid \<in> lang r" by blast
    show "frag_search r (c # cs) \<noteq> None"
    proof (cases pre)
      case Nil
      with e m have "match_here r (c # cs)" by (auto simp: match_here_iff matches_prefix_def)
      then show ?thesis by simp
    next
      case (Cons d pre')
      with e have "cs = pre' @ mid @ suf" by simp
      with m have "frag_search r cs \<noteq> None" using Cons.IH by blast
      then show ?thesis by auto
    qed
  qed
qed

text \<open>
  A constructed predicate is in regex mode exactly when it carries a compiled pattern,
  and the pattern is the compilation of its value.
\<close>

lemma StringMatch_init_compiled:
  assumes "StringMatch_init rc d = Inr sm"
  shows "if sm_isPCRE sm then (\<exists>r. sm_compiledValue sm = Some r \<and> rc (sm_value sm) = Inr r)
         else sm_compiledValue sm = None"
  using assms
  by (auto simp: StringMatch_init_def getStringChecked_def
           split: pyobj.splits sum.splits option.splits if_splits)

text \<open>
  Inside the fragment the engine does not call the library: the result of \<open>re_compile\<close>
  is the same for every \<open>lib\<close>.
\<close>

lemma re_compile_fragment:
  "frag_compile p = Some res \<Longrightarrow>
   re_compile lib p = (case res of Inl m \<Rightarrow> Inl m | Inr r \<Rightarrow> Inr (Frag r))"
  by (simp add: re_compile_def split: sum.split)

text \<open>
  C2. A constructed regex-mode text predicate, whatever the engine, carries the
  compilation of its pattern and matches a candidate \<open>s\<close> exactly when the search of
  the compiled pattern in \<open>s\<close> finds a match. For a pattern of the fragment, the search
  finds a match exactly when some contiguous part of \<open>s\<close>, anywhere in it, is matched
  by the pattern (a search, not a match of the whole candidate). The descriptor
  \<^verbatim>\<open>/abc.*/\<close> gives regex mode with pattern \<^verbatim>\<open>abc.*\<close>, which matches \<^verbatim>\<open>xxabcyy\<close>
  (though the whole of it is not in the pattern's language) and does not match
  \<^verbatim>\<open>xyz\<close>.
\<close>

theorem regex_matches_iff_search:
  "(StringMatch_init rc d = Inr sm \<and> sm_isPCRE sm \<longrightarrow>
      (\<exists>r. sm_compiledValue sm = Some r \<and> rc (sm_value sm) = Inr r \<and>
           StringMatch_matches rs sm s = Inr (rs r s \<noteq> None))) \<and>
   (StringMatch_init (re_compile lib) d' = Inr sm' \<and> sm_compiledValue sm' = Some (Frag p) \<longrightarrow>
      sm_isPCRE sm' \<and> frag_compile (sm_value sm') = Some (Inr p) \<and>
      StringMatch_matches (re_search ls) sm' s =
        Inr (\<exists>pre mid suf. s = pre @ mid @ suf \<and> mid \<in> lang p)) \<and>
   StringMatch_init (re_compile lib) (PyStr ''/abc.*/'') =
     Inr \<lparr>sm_isPCRE = True,
          sm_compiledValue =
            Some (Frag [One (Lit CHR ''a''), One (Lit CHR ''b''), One (Lit CHR ''c''), Many AnyChar]),
          sm_value = ''abc.*''\<rparr> \<and>
   StringMatch_matches (re_search ls)
     \<lparr>sm_isPCRE = True,
      sm_compiledValue =
        Some (Frag [One (Lit CHR ''a''), One (Lit CHR ''b''), One (Lit CHR ''c''), Many AnyChar]),
      sm_value = ''abc.*''\<rparr> ''xxabcyy'' = Inr True \<and>
   ''xxabcyy'' \<notin> lang [One (Lit CHR ''a''), One (Lit CHR ''b''), One (Lit CHR ''c''), Many AnyChar] \<and>
   StringMatch_matches (re_search ls)
     \<lparr>sm_isPCRE = True,
      sm_compiledValue =
        Some (Frag [One (Lit CHR ''a''), One (Lit CHR ''b''), One (Lit CHR ''c''), Many AnyChar]),
      sm_value = ''abc.*''\<rparr> ''xyz'' = Inr False"
proof (intro conjI impI)
  assume a: "StringMatch_init rc d = Inr sm \<and> sm_isPCRE sm"
  then obtain r where r: "sm_compiledValue sm = Some r" "rc (sm_value sm) = Inr r"
    using StringMatch_init_compiled [of rc d sm] by auto
  with a have "StringMatch_matches rs sm s = Inr (rs r s \<noteq> None)"
    by (simp add: StringMatch_matches_def)
  with r show "\<exists>r. sm_compiledValue sm = Some r \<and> rc (sm_value sm) = Inr r \<and>
           StringMatch_matches rs sm s = Inr (rs r s \<noteq> None)"
    by blast
next
  assume b: "StringMatch_init (re_compile lib) d' = Inr sm' \<and> sm_compiledValue sm' = Some (Frag p)"
  from b StringMatch_init_compiled [of "re_compile lib" d' sm']
  show pcre: "sm_isPCRE sm'" by (auto split: if_splits)
  with b StringMatch_init_compiled [of "re_compile lib" d' sm']
  have "re_compile lib (sm_value sm') = Inr (Frag p)" by auto
  then show "frag_compile (sm_value sm') = Some (Inr p)"
    by (auto simp: re_compile_def split: option.splits sum.splits)
  from b pcre have "StringMatch_matches (re_search ls) sm' s = Inr (frag_search p s \<noteq> None)"
    by (simp add: StringMatch_matches_def)
  then show "StringMatch_matches (re_search ls) sm' s =
        Inr (\<exists>pre mid suf. s = pre @ mid @ suf \<and> mid \<in> lang p)"
    by (simp only: frag_search_iff)
next
  show "StringMatch_init (re_compile lib) (PyStr ''/abc.*/'') =
     Inr \<lparr>sm_isPCRE = True,
          sm_compiledValue =
            Some (Frag [One (Lit CHR ''a''), One (Lit CHR ''b''), One (Lit CHR ''c''), Many AnyChar]),
          sm_value = ''abc.*''\<rparr>"
    by (simp add: StringMatch_init_def endswith_def slice_1_m1_def re_special_def re_compile_def)
next
  show "StringMatch_matches (re_search ls)
     \<lparr>sm_isPCRE = True,
      sm_compiledValue =
        Some (Frag [One (Lit CHR ''a''), One (Lit CHR ''b''), One (Lit CHR ''c''), Many AnyChar]),
      sm_value = ''abc.*''\<rparr> ''xxabcyy'' = Inr True"
    by (simp add: StringMatch_matches_def)
next
  show "''xxabcyy'' \<notin> lang [One (Lit CHR ''a''), One (Lit CHR ''b''), One (Lit CHR ''c''), Many AnyChar]"
    by simp
next
  show "StringMatch_matches (re_search ls)
     \<lparr>sm_isPCRE = True,
      sm_compiledValue =
        Some (Frag [One (Lit CHR ''a''), One (Lit CHR ''b''), One (Lit CHR ''c''), Many AnyChar]),
      sm_value = ''abc.*''\<rparr> ''xyz'' = Inr False"
    by (simp add: StringMatch_matches_def)
qed

theorem regex_matches_iff_search_witness:
  "StringMatch_init (re_compile no_library) (PyStr ''/b.*/'') =
     Inr \<lparr>sm_isPCRE = True, sm_compiledValue = Some (Frag [One (Lit CHR ''b''), Many AnyChar]),
          sm_value = ''b.*''\<rparr> \<and>
   sm_isPCRE \<lparr>sm_isPCRE = True,
          sm_compiledValue = Some (Frag [One (Lit CHR ''b''), Many AnyChar] :: unit pattern),
          sm_value = ''b.*''\<rparr> \<and>
   re_compile no_library ''b.*'' = Inr (Frag [One (Lit CHR ''b''), Many AnyChar]) \<and>
   frag_compile ''b.*'' = Some (Inr [One (Lit CHR ''b''), Many AnyChar]) \<and>
   StringMatch_matches (re_search no_library_search)
     \<lparr>sm_isPCRE = True, sm_compiledValue = Some (Frag [One (Lit CHR ''b''), Many AnyChar]),
      sm_value = ''b.*''\<rparr> ''abc'' = Inr True \<and>
   (\<exists>pre mid suf. ''abc'' = pre @ mid @ suf \<and> mid \<in> lang [One (Lit CHR ''b''), Many AnyChar])"
proof -
  let ?p = "[One (Lit CHR ''b''), Many AnyChar]"
  let ?sm = "\<lparr>sm_isPCRE = True, sm_compiledValue = Some (Frag ?p :: unit pattern),
          sm_value = ''b.*''\<rparr>"
  have i: "StringMatch_init (re_compile no_library) (PyStr ''/b.*/'') = Inr ?sm"
    by (simp add: StringMatch_init_def endswith_def slice_1_m1_def re_special_def re_compile_def)
  have m: "StringMatch_matches (re_search no_library_search) ?sm ''abc'' = Inr True"
    by (simp add: StringMatch_matches_def)
  note u = regex_matches_iff_search [of "re_compile no_library" "PyStr ''/b.*/''" ?sm
      "re_search no_library_search" "''abc''" no_library "PyStr ''/b.*/''" ?sm ?p no_library_search]
  have g: "StringMatch_init (re_compile no_library) (PyStr ''/b.*/'') = Inr ?sm \<and> sm_isPCRE ?sm"
    using i by simp
  have "\<exists>r. sm_compiledValue ?sm = Some r \<and> re_compile no_library (sm_value ?sm) = Inr r \<and>
      StringMatch_matches (re_search no_library_search) ?sm ''abc'' =
        Inr (re_search no_library_search r ''abc'' \<noteq> None)"
    using conjunct1 [OF u] g by (rule mp)
  then have 1: "re_compile no_library ''b.*'' = Inr (Frag ?p)" by simp
  have h: "StringMatch_init (re_compile no_library) (PyStr ''/b.*/'') = Inr ?sm \<and>
      sm_compiledValue ?sm = Some (Frag ?p)"
    using i by simp
  have f: "sm_isPCRE ?sm \<and> frag_compile (sm_value ?sm) = Some (Inr ?p) \<and>
      StringMatch_matches (re_search no_library_search) ?sm ''abc'' =
        Inr (\<exists>pre mid suf. ''abc'' = pre @ mid @ suf \<and> mid \<in> lang ?p)"
    using conjunct1 [OF conjunct2 [OF u]] h by (rule mp)
  then have 2: "frag_compile ''b.*'' = Some (Inr ?p)" by simp
  from f m have 3: "\<exists>pre mid suf. ''abc'' = pre @ mid @ suf \<and> mid \<in> lang ?p" by simp
  show ?thesis
    by (intro conjI) (rule i, simp, rule 1, rule 2, rule m, rule 3)
qed

section \<open>Construction of a numeric predicate, case by case\<close>

lemma split_ws1_Nil: "split_ws1 [] = []"
  by (simp add: split_ws1_def)

lemma split_ws1_shape:
  "split_ws1 s = [] \<or> (\<exists>x. split_ws1 s = [x]) \<or> (\<exists>t h. split_ws1 s = [t, h])"
  unfolding split_ws1_def Let_def by (simp only: split: if_split) blast

lemma init_empty: "NumberMatch_init (PyStr []) = Inr \<lparr>nm_matchType = None, nm_value = None\<rparr>"
  by (simp add: NumberMatch_init_def)

lemma init_blank:
  "s \<noteq> [] \<Longrightarrow> split_ws1 s = [] \<Longrightarrow> NumberMatch_init (PyStr s) = Inl IndexError"
  by (simp add: NumberMatch_init_def)

lemma init_one:
  "split_ws1 s = [x] \<Longrightarrow>
   NumberMatch_init (PyStr s) =
     (case py_long16 x of
        None \<Rightarrow> Inl (InvalidNumberError x)
      | Some n \<Rightarrow> Inr \<lparr>nm_matchType = None, nm_value = Some n\<rparr>)"
  using split_ws1_Nil by (cases "s = []") (simp_all add: NumberMatch_init_def split: option.split)

lemma init_two:
  "split_ws1 s = [t, h] \<Longrightarrow>
   NumberMatch_init (PyStr s) =
     (case operator_of t of
        None \<Rightarrow> Inl (UnknownOperatorError t)
      | Some mt \<Rightarrow>
          (case py_long16 h of
             None \<Rightarrow> Inl (InvalidNumberError h)
           | Some n \<Rightarrow> Inr \<lparr>nm_matchType = mt, nm_value = Some n\<rparr>))"
  using split_ws1_Nil by (cases "s = []") (simp_all add: NumberMatch_init_def operator_of_def split: option.split)

lemma operator_of_None: "operator_of t = None \<longleftrightarrow> t \<notin> set operator_tokens"
  by (simp add: operator_of_def operator_tokens_def)

text \<open>A constructed predicate without a reference value has the default operator.\<close>

lemma NumberMatch_init_absent:
  assumes "NumberMatch_init d = Inr nm" and "nm_value nm = None"
  shows "nm_matchType nm = None"
proof (cases d)
  case (PyStr s)
  show ?thesis
  proof (cases "s = []")
    case True
    with PyStr assms show ?thesis by (auto simp: init_empty)
  next
    case False
    from split_ws1_shape [of s] show ?thesis
    proof (elim disjE exE)
      assume "split_ws1 s = []"
      with False PyStr assms show ?thesis by (auto simp: init_blank)
    next
      fix x assume "split_ws1 s = [x]"
      with PyStr assms show ?thesis by (auto simp: init_one split: option.splits)
    next
      fix t h assume "split_ws1 s = [t, h]"
      with PyStr assms show ?thesis by (auto simp: init_two split: option.splits)
    qed
  qed
qed (use assms in \<open>auto simp: NumberMatch_init_def\<close>)

text \<open>
  C3. For a constructed numeric predicate, an absent candidate matches exactly when the
  reference value is absent too, whatever the operator; and when the reference value is
  absent, no integer candidate matches.
\<close>

theorem absent_candidate_iff_absent_reference:
  assumes "NumberMatch_init d = Inr nm"
  shows "NumberMatch_matches nm None = Inr (nm_value nm = None) \<and>
         NumberMatch_matches (nm\<lparr>nm_matchType := mt\<rparr>) None = NumberMatch_matches nm None \<and>
         (nm_value nm = None \<longrightarrow> NumberMatch_matches nm (Some n) = Inr False)"
proof -
  have "nm_value nm = None \<Longrightarrow> NumberMatch_matches nm (Some n) = Inr False"
    using NumberMatch_init_absent [OF assms] by (simp add: NumberMatch_matches_def)
  then show ?thesis by (simp add: NumberMatch_matches_def)
qed

theorem absent_candidate_iff_absent_reference_witness:
  "NumberMatch_init (PyStr '''') = Inr \<lparr>nm_matchType = None, nm_value = None\<rparr> \<and>
   NumberMatch_matches \<lparr>nm_matchType = None, nm_value = None\<rparr> None = Inr True \<and>
   NumberMatch_matches \<lparr>nm_matchType = Some GE, nm_value = None\<rparr> None = Inr True \<and>
   NumberMatch_matches \<lparr>nm_matchType = None, nm_value = None\<rparr> (Some 0) = Inr False"
proof -
  have i: "NumberMatch_init (PyStr '''') = Inr \<lparr>nm_matchType = None, nm_value = None\<rparr>"
    by (simp add: NumberMatch_init_def)
  from absent_candidate_iff_absent_reference [OF i, of "Some GE" 0] i
  show ?thesis by simp
qed

text \<open>
  C4. A descriptor that splits into an operator token \<open>t\<close> and a numeric token \<open>h\<close>
  read as \<open>r\<close> constructs a predicate with reference value \<open>r\<close> whose operator is the
  one \<open>t\<close> names, and on an integer candidate \<open>c\<close> the predicate is the comparison
  of \<open>c\<close>, on the left, with \<open>r\<close>: \<^verbatim>\<open><=\<close> and \<^verbatim>\<open>>=\<close> include equality,
  \<^verbatim>\<open><\<close> and \<^verbatim>\<open>>\<close> exclude it.
\<close>

theorem operator_token_comparison:
  assumes "split_ws1 s = [t, h]" and "py_long16 h = Some r" and "t \<in> set operator_tokens"
  shows "\<exists>nm. NumberMatch_init (PyStr s) = Inr nm \<and>
           nm_value nm = Some r \<and>
           nm_matchType nm =
             (if t = ''=='' then None else if t = ''<'' then Some LT
              else if t = ''<='' then Some LE else if t = ''>'' then Some GT else Some GE) \<and>
           NumberMatch_matches nm (Some c) =
             Inr (if t = ''=='' then c = r else if t = ''<'' then c < r
                  else if t = ''<='' then c \<le> r else if t = ''>'' then c > r else c \<ge> r)"
proof -
  from assms(3) consider "t = ''==''" | "t = ''<''" | "t = ''<=''" | "t = ''>''" | "t = ''>=''"
    by (auto simp: operator_tokens_def)
  then show ?thesis
    using init_two [OF assms(1)] assms(2)
    by cases
      (simp_all add: operator_of_def NumberMatch_matches_def
         py_ge_def py_gt_def py_le_def py_lt_def)
qed

theorem operator_token_comparison_witness:
  "split_ws1 ''< 7fff0000'' = [''<'', ''7fff0000''] \<and>
   py_long16 ''7fff0000'' = Some 0x7fff0000 \<and>
   ''<'' \<in> set operator_tokens \<and>
   (\<exists>nm. NumberMatch_init (PyStr ''< 7fff0000'') = Inr nm \<and>
         nm_value nm = Some 0x7fff0000 \<and> nm_matchType nm = Some LT \<and>
         NumberMatch_matches nm (Some 0x1000) = Inr True)"
proof -
  have a: "split_ws1 ''< 7fff0000'' = [''<'', ''7fff0000'']"
    by (simp add: split_ws1_def isspace_def)
  have b: "py_long16 ''7fff0000'' = Some 0x7fff0000"
    by (simp add: py_long16_def isspace_def skip_sign_def skip_0x_def skip_L_def is_hex_def
          hex_digit_def hex_value_def)
  have c: "''<'' \<in> set operator_tokens"
    by (simp add: operator_tokens_def)
  from operator_token_comparison [OF a b c, of "0x1000"] a b c
  show ?thesis by simp
qed

section \<open>Failures belong to construction\<close>

text \<open>
  In the model a failure of construction is the \<open>Inl\<close> result of the constructor. A
  regex-mode record without a compiled pattern would fail when queried; construction
  never returns one.
\<close>

lemma unconstructed_regex_fails:
  "StringMatch_matches rs \<lparr>sm_isPCRE = True, sm_compiledValue = None, sm_value = v\<rparr> s =
     Inl AttributeError"
  by (simp add: StringMatch_matches_def)

text \<open>
  C5. A text or numeric predicate that construction returned never fails when queried:
  for every candidate string, respectively every optional integer, \<open>matches\<close> returns a
  boolean. Whatever is wrong with a descriptor is reported by the constructor.
\<close>

theorem matches_never_fails:
  "(StringMatch_init rc d = Inr sm \<longrightarrow> (\<exists>b. StringMatch_matches rs sm s = Inr b)) \<and>
   (NumberMatch_init d' = Inr nm \<longrightarrow> (\<exists>b. NumberMatch_matches nm c = Inr b))"
proof (intro conjI impI)
  assume "StringMatch_init rc d = Inr sm"
  from StringMatch_init_compiled [OF this]
  show "\<exists>b. StringMatch_matches rs sm s = Inr b"
    by (auto simp: StringMatch_matches_def split: if_splits)
next
  show "\<exists>b. NumberMatch_matches nm c = Inr b"
    by (simp add: NumberMatch_matches_def split: option.split)
qed

theorem matches_never_fails_witness:
  "StringMatch_init (re_compile no_library) (PyStr ''/abc.*/'') =
     Inr \<lparr>sm_isPCRE = True,
          sm_compiledValue =
            Some (Frag [One (Lit CHR ''a''), One (Lit CHR ''b''), One (Lit CHR ''c''), Many AnyChar]),
          sm_value = ''abc.*''\<rparr> \<and>
   (\<exists>b. StringMatch_matches (re_search no_library_search)
     \<lparr>sm_isPCRE = True,
      sm_compiledValue =
        Some (Frag [One (Lit CHR ''a''), One (Lit CHR ''b''), One (Lit CHR ''c''), Many AnyChar]),
      sm_value = ''abc.*''\<rparr> ''xyz'' = Inr b) \<and>
   NumberMatch_init (PyInt 7) = Inr \<lparr>nm_matchType = None, nm_value = Some 7\<rparr> \<and>
   (\<exists>b. NumberMatch_matches \<lparr>nm_matchType = None, nm_value = Some 7\<rparr> None = Inr b)"
proof -
  let ?sm = "\<lparr>sm_isPCRE = True,
          sm_compiledValue =
            Some (Frag [One (Lit CHR ''a''), One (Lit CHR ''b''), One (Lit CHR ''c''), Many AnyChar]),
          sm_value = ''abc.*''\<rparr>"
  let ?nm = "\<lparr>nm_matchType = None, nm_value = Some 7\<rparr>"
  have i: "StringMatch_init (re_compile no_library) (PyStr ''/abc.*/'') = Inr ?sm"
    by (simp add: StringMatch_init_def endswith_def slice_1_m1_def re_special_def re_compile_def)
  have j: "NumberMatch_init (PyInt 7) = Inr ?nm"
    by (simp add: NumberMatch_init_def)
  from matches_never_fails [of "re_compile no_library" "PyStr ''/abc.*/''" ?sm "re_search no_library_search" "''xyz''" "PyInt 7" ?nm None]
    i j
  show ?thesis by blast
qed

section \<open>The short form of a regular expression\<close>

lemma slash_delimited:
  "startswith s ''/'' \<and> endswith s ''/'' \<longleftrightarrow> s = ''/'' \<or> (\<exists>mid. s = ''/'' @ mid @ ''/'')"
proof
  assume a: "startswith s ''/'' \<and> endswith s ''/''"
  then obtain t where t: "s = CHR ''/'' # t" by (auto simp: startswith_iff)
  from a obtain u where "rev s = CHR ''/'' # u" by (auto simp: endswith_def startswith_iff)
  then have u: "s = rev u @ ''/''" by (metis rev_rev_ident rev.simps(2))
  show "s = ''/'' \<or> (\<exists>mid. s = ''/'' @ mid @ ''/'')"
  proof (cases t rule: rev_cases)
    case Nil
    with t show ?thesis by simp
  next
    case (snoc mid c)
    with t u have "c = CHR ''/''" by simp
    with snoc t show ?thesis by simp
  qed
next
  assume "s = ''/'' \<or> (\<exists>mid. s = ''/'' @ mid @ ''/'')"
  then show "startswith s ''/'' \<and> endswith s ''/''"
    by (auto simp: endswith_def)
qed

lemma slice_delimited: "slice_1_m1 (''/'' @ mid @ ''/'') = mid"
  by (simp add: slice_1_m1_def)

text \<open>
  C6, as the claim states it, fails: the one-character string \<^verbatim>\<open>/\<close> starts and ends
  with a slash, and the constructor makes it a regex-mode predicate with the empty
  pattern, not a literal.
\<close>

theorem single_slash_is_regex_counterexample:
  "length ''/'' < 2 \<and>
   StringMatch_init (re_compile no_library) (PyStr ''/'') =
     Inr \<lparr>sm_isPCRE = True, sm_compiledValue = Some (Frag []), sm_value = ''''\<rparr> \<and>
   StringMatch_init (re_compile no_library) (PyStr ''/'') \<noteq>
     Inr \<lparr>sm_isPCRE = False, sm_compiledValue = None, sm_value = ''/''\<rparr>"
  by (simp add: StringMatch_init_def endswith_def slice_1_m1_def re_compile_def)

text \<open>
  C6, amended. A string descriptor is taken as a regular expression exactly when it
  starts and ends with a slash, the single slash included: \<^verbatim>\<open>/mid/\<close> compiles
  \<open>mid\<close>, \<^verbatim>\<open>/\<close> compiles the empty pattern, and a pattern that does not compile
  makes construction fail. Any other string is a literal pattern in its entirety.
\<close>

theorem short_form_regex_iff_slashes:
  "(s = ''/'' @ mid @ ''/'' \<longrightarrow>
      StringMatch_init rc (PyStr s) =
        (case rc mid of
           Inl e \<Rightarrow> Inl (InvalidPatternError e)
         | Inr r \<Rightarrow> Inr \<lparr>sm_isPCRE = True, sm_compiledValue = Some r, sm_value = mid\<rparr>)) \<and>
   (s = ''/'' \<longrightarrow>
      StringMatch_init rc (PyStr s) =
        (case rc '''' of
           Inl e \<Rightarrow> Inl (InvalidPatternError e)
         | Inr r \<Rightarrow> Inr \<lparr>sm_isPCRE = True, sm_compiledValue = Some r, sm_value = ''''\<rparr>)) \<and>
   (s \<noteq> ''/'' \<and> (\<forall>m. s \<noteq> ''/'' @ m @ ''/'') \<longrightarrow>
      StringMatch_init rc (PyStr s) =
        Inr \<lparr>sm_isPCRE = False, sm_compiledValue = None, sm_value = s\<rparr>)"
proof (intro conjI impI)
  assume s: "s = ''/'' @ mid @ ''/''"
  then have "startswith s ''/'' \<and> endswith s ''/''" using slash_delimited by blast
  moreover from s have "slice_1_m1 s = mid" using slice_delimited by blast
  ultimately show "StringMatch_init rc (PyStr s) =
        (case rc mid of
           Inl e \<Rightarrow> Inl (InvalidPatternError e)
         | Inr r \<Rightarrow> Inr \<lparr>sm_isPCRE = True, sm_compiledValue = Some r, sm_value = mid\<rparr>)"
    by (simp add: StringMatch_init_def split: sum.split)
next
  assume "s = ''/''"
  then show "StringMatch_init rc (PyStr s) =
        (case rc '''' of
           Inl e \<Rightarrow> Inl (InvalidPatternError e)
         | Inr r \<Rightarrow> Inr \<lparr>sm_isPCRE = True, sm_compiledValue = Some r, sm_value = ''''\<rparr>)"
    by (simp add: StringMatch_init_def endswith_def slice_1_m1_def split: sum.split)
next
  assume "s \<noteq> ''/'' \<and> (\<forall>m. s \<noteq> ''/'' @ m @ ''/'')"
  then have "\<not> (startswith s ''/'' \<and> endswith s ''/'')" using slash_delimited by blast
  then show "StringMatch_init rc (PyStr s) =
        Inr \<lparr>sm_isPCRE = False, sm_compiledValue = None, sm_value = s\<rparr>"
    by (auto simp: StringMatch_init_def)
qed

theorem short_form_regex_iff_slashes_witness:
  "StringMatch_init (re_compile no_library) (PyStr ''/abc.*/'') =
     Inr \<lparr>sm_isPCRE = True,
          sm_compiledValue =
            Some (Frag [One (Lit CHR ''a''), One (Lit CHR ''b''), One (Lit CHR ''c''), Many AnyChar]),
          sm_value = ''abc.*''\<rparr> \<and>
   StringMatch_init (re_compile no_library) (PyStr ''/'') =
     Inr \<lparr>sm_isPCRE = True, sm_compiledValue = Some (Frag []), sm_value = ''''\<rparr> \<and>
   StringMatch_init (re_compile no_library) (PyStr ''a/b'') =
     Inr \<lparr>sm_isPCRE = False, sm_compiledValue = None, sm_value = ''a/b''\<rparr>"
proof -
  have a: "''/abc.*/'' = ''/'' @ ''abc.*'' @ ''/''" by simp
  have c: "''a/b'' \<noteq> ''/'' \<and> (\<forall>m. ''a/b'' \<noteq> ''/'' @ m @ ''/'')" by simp
  have r: "re_compile no_library ''abc.*'' =
      Inr (Frag [One (Lit CHR ''a''), One (Lit CHR ''b''), One (Lit CHR ''c''), Many AnyChar])"
    by (simp add: re_special_def re_compile_def)
  have "StringMatch_init (re_compile no_library) (PyStr ''/abc.*/'') =
      (case re_compile no_library ''abc.*'' of
         Inl e \<Rightarrow> Inl (InvalidPatternError e)
       | Inr r \<Rightarrow> Inr \<lparr>sm_isPCRE = True, sm_compiledValue = Some r, sm_value = ''abc.*''\<rparr>)"
    using conjunct1 [OF short_form_regex_iff_slashes [of "''/abc.*/''" "''abc.*''" "re_compile no_library"]] a
    by (rule mp)
  then have 1: "StringMatch_init (re_compile no_library) (PyStr ''/abc.*/'') =
     Inr \<lparr>sm_isPCRE = True,
          sm_compiledValue =
            Some (Frag [One (Lit CHR ''a''), One (Lit CHR ''b''), One (Lit CHR ''c''), Many AnyChar]),
          sm_value = ''abc.*''\<rparr>"
    by (simp only: r sum.case)
  have "StringMatch_init (re_compile no_library) (PyStr ''/'') =
      (case re_compile no_library '''' of
         Inl e \<Rightarrow> Inl (InvalidPatternError e)
       | Inr r \<Rightarrow> Inr \<lparr>sm_isPCRE = True, sm_compiledValue = Some r, sm_value = ''''\<rparr>)"
    using conjunct1 [OF conjunct2 [OF short_form_regex_iff_slashes [of "''/''" "[]" "re_compile no_library"]]] refl
    by (rule mp)
  then have 2: "StringMatch_init (re_compile no_library) (PyStr ''/'') =
     Inr \<lparr>sm_isPCRE = True, sm_compiledValue = Some (Frag []), sm_value = ''''\<rparr>"
    by (simp add: re_compile_def)
  have 3: "StringMatch_init (re_compile no_library) (PyStr ''a/b'') =
     Inr \<lparr>sm_isPCRE = False, sm_compiledValue = None, sm_value = ''a/b''\<rparr>"
    using conjunct2 [OF conjunct2 [OF short_form_regex_iff_slashes [of "''a/b''" "[]" "re_compile no_library"]]] c
    by (rule mp)
  show ?thesis by (intro conjI) (rule 1, rule 2, rule 3)
qed

section \<open>Unknown operators\<close>

lemma StringMatch_init_unknown:
  "StringMatch_init rc d = Inl (UnknownOperatorError t) \<longleftrightarrow>
     (\<exists>kvs v. d = PyDict kvs \<and> map_of kvs ''value'' = Some (PyStr v) \<and>
        map_of kvs ''matchType'' = Some (PyStr t) \<and>
        lower t \<noteq> ''contains'' \<and> lower t \<noteq> ''pcre'')"
proof (cases d)
  case (PyStr s)
  then show ?thesis
    by (simp add: StringMatch_init_def split: sum.split)
next
  case (PyInt n)
  then show ?thesis by (simp add: StringMatch_init_def getStringChecked_def)
next
  case PyNone
  then show ?thesis by (simp add: StringMatch_init_def getStringChecked_def)
next
  case (PyDict kvs)
  then show ?thesis
    by (auto simp: StringMatch_init_def getStringChecked_def
          split: option.split pyobj.split sum.split)
qed

lemma NumberMatch_init_unknown:
  "NumberMatch_init d = Inl (UnknownOperatorError t) \<longleftrightarrow>
     (\<exists>s h. d = PyStr s \<and> split_ws1 s = [t, h] \<and> t \<notin> set operator_tokens)"
proof (cases d)
  case (PyStr s)
  show ?thesis
  proof (cases "s = []")
    case True
    with PyStr show ?thesis by (simp add: init_empty split_ws1_Nil)
  next
    case False
    from split_ws1_shape [of s] show ?thesis
    proof (elim disjE exE)
      assume "split_ws1 s = []"
      with False PyStr show ?thesis by (simp add: init_blank)
    next
      fix x assume "split_ws1 s = [x]"
      with PyStr show ?thesis by (simp add: init_one split: option.split)
    next
      fix t' h assume "split_ws1 s = [t', h]"
      with PyStr show ?thesis
        using operator_of_None [of t']
        by (cases "operator_of t'") (auto simp: init_two split: option.split)
    qed
  qed
qed (simp_all add: NumberMatch_init_def)

text \<open>
  C7. Construction of a text predicate fails with the unknown-operator error naming
  \<open>t\<close> exactly when the descriptor is an object with a string \<open>value\<close> whose
  \<open>matchType\<close> is the string \<open>t\<close> and \<open>t\<close> in lower case is neither
  \<^verbatim>\<open>contains\<close> nor \<^verbatim>\<open>pcre\<close>. Construction of a numeric predicate fails with it
  naming \<open>t\<close> exactly when the descriptor is a string of two tokens whose first token
  \<open>t\<close> is not one of the five operators. The descriptor \<^verbatim>\<open>~~ 10\<close> fails naming
  \<^verbatim>\<open>~~\<close>.
\<close>

theorem unknown_operator_iff:
  "(StringMatch_init rc d = Inl (UnknownOperatorError t) \<longleftrightarrow>
     (\<exists>kvs v. d = PyDict kvs \<and> map_of kvs ''value'' = Some (PyStr v) \<and>
        map_of kvs ''matchType'' = Some (PyStr t) \<and>
        lower t \<noteq> ''contains'' \<and> lower t \<noteq> ''pcre'')) \<and>
   (NumberMatch_init d' = Inl (UnknownOperatorError t') \<longleftrightarrow>
     (\<exists>s h. d' = PyStr s \<and> split_ws1 s = [t', h] \<and> t' \<notin> set operator_tokens)) \<and>
   NumberMatch_init (PyStr ''~~ 10'') = Inl (UnknownOperatorError ''~~'')"
proof (intro conjI)
  show "NumberMatch_init (PyStr ''~~ 10'') = Inl (UnknownOperatorError ''~~'')"
    by (simp add: NumberMatch_init_def split_ws1_def isspace_def)
qed (rule StringMatch_init_unknown, rule NumberMatch_init_unknown)

theorem unknown_operator_iff_witness:
  "StringMatch_init (re_compile no_library)
     (PyDict [(''value'', PyStr ''SEGV''), (''matchType'', PyStr ''Bogus'')]) =
     Inl (UnknownOperatorError ''Bogus'') \<and>
   split_ws1 ''~= ff'' = [''~='', ''ff''] \<and> ''~='' \<notin> set operator_tokens \<and>
   NumberMatch_init (PyStr ''~= ff'') = Inl (UnknownOperatorError ''~='')"
proof -
  have a: "\<exists>kvs v. PyDict [(''value'', PyStr ''SEGV''), (''matchType'', PyStr ''Bogus'')] = PyDict kvs \<and>
      map_of kvs ''value'' = Some (PyStr v) \<and> map_of kvs ''matchType'' = Some (PyStr ''Bogus'') \<and>
      lower ''Bogus'' \<noteq> ''contains'' \<and> lower ''Bogus'' \<noteq> ''pcre''"
    by (intro exI [of _ "[(''value'', PyStr ''SEGV''), (''matchType'', PyStr ''Bogus'')]"]
          exI [of _ "''SEGV''"] conjI)
       (simp_all add: lower_def lower_char_def)
  have b: "split_ws1 ''~= ff'' = [''~='', ''ff'']"
    by (simp add: split_ws1_def isspace_def)
  have c: "''~='' \<notin> set operator_tokens"
    by (simp add: operator_tokens_def)
  have d: "\<exists>s h. PyStr ''~= ff'' = PyStr s \<and> split_ws1 s = [''~='', h] \<and>
      ''~='' \<notin> set operator_tokens"
    by (intro exI conjI) (rule refl, rule b, rule c)
  note u = unknown_operator_iff [of "re_compile no_library"
      "PyDict [(''value'', PyStr ''SEGV''), (''matchType'', PyStr ''Bogus'')]" "''Bogus''"
      "PyStr ''~= ff''" "''~=''"]
  have 1: "StringMatch_init (re_compile no_library)
     (PyDict [(''value'', PyStr ''SEGV''), (''matchType'', PyStr ''Bogus'')]) =
     Inl (UnknownOperatorError ''Bogus'')"
    using conjunct1 [OF u] a by (rule iffD2)
  have 2: "NumberMatch_init (PyStr ''~= ff'') = Inl (UnknownOperatorError ''~='')"
    using conjunct1 [OF conjunct2 [OF u]] d by (rule iffD2)
  show ?thesis by (intro conjI) (rule 1, rule b, rule c, rule 2)
qed

section \<open>The empty pattern\<close>

lemma str_contains_empty: "str_contains [] s"
  by (cases s) simp_all

lemma frag_search_empty: "frag_search [] s \<noteq> None"
  by (cases s) simp_all

text \<open>
  C10. The empty string as a text descriptor is the empty literal pattern and
  \<^verbatim>\<open>//\<close> is the empty regular expression; both match every candidate. For a
  numeric predicate the empty string is the absent reference value instead.
\<close>

theorem empty_pattern_matches_everything:
  "StringMatch_init (re_compile lib) (PyStr '''') =
     Inr \<lparr>sm_isPCRE = False, sm_compiledValue = None, sm_value = ''''\<rparr> \<and>
   StringMatch_matches (re_search ls)
     \<lparr>sm_isPCRE = False, sm_compiledValue = None, sm_value = ''''\<rparr> s = Inr True \<and>
   StringMatch_init (re_compile lib) (PyStr ''//'') =
     Inr \<lparr>sm_isPCRE = True, sm_compiledValue = Some (Frag []), sm_value = ''''\<rparr> \<and>
   StringMatch_matches (re_search ls)
     \<lparr>sm_isPCRE = True, sm_compiledValue = Some (Frag []), sm_value = ''''\<rparr> s = Inr True \<and>
   NumberMatch_init (PyStr '''') = Inr \<lparr>nm_matchType = None, nm_value = None\<rparr>"
proof (intro conjI)
  show "StringMatch_init (re_compile lib) (PyStr '''') =
     Inr \<lparr>sm_isPCRE = False, sm_compiledValue = None, sm_value = ''''\<rparr>"
    by (simp add: StringMatch_init_def)
  show "StringMatch_matches (re_search ls)
     \<lparr>sm_isPCRE = False, sm_compiledValue = None, sm_value = ''''\<rparr> s = Inr True"
    by (simp add: StringMatch_matches_def str_contains_empty)
  show "StringMatch_init (re_compile lib) (PyStr ''//'') =
     Inr \<lparr>sm_isPCRE = True, sm_compiledValue = Some (Frag []), sm_value = ''''\<rparr>"
    by (simp add: StringMatch_init_def endswith_def slice_1_m1_def re_compile_def)
  show "StringMatch_matches (re_search ls)
     \<lparr>sm_isPCRE = True, sm_compiledValue = Some (Frag []), sm_value = ''''\<rparr> s = Inr True"
    using frag_search_empty [of s] by (simp add: StringMatch_matches_def)
  show "NumberMatch_init (PyStr '''') = Inr \<lparr>nm_matchType = None, nm_value = None\<rparr>"
    by (simp add: NumberMatch_init_def)
qed

section \<open>Negative reference values\<close>

lemma is_hex_not_space: "is_hex c \<Longrightarrow> \<not> isspace c"
  by (auto simp: isspace_def is_hex_def hex_digit_def)

lemma is_hex_not_x: "is_hex c \<Longrightarrow> c \<noteq> CHR ''x'' \<and> c \<noteq> CHR ''X''"
  by (auto simp: is_hex_def hex_digit_def)

lemma skip_0x_hex:
  assumes "\<forall>c \<in> set h. is_hex c"
  shows "skip_0x h = h"
proof (cases h)
  case Nil
  then show ?thesis by (simp add: skip_0x_def)
next
  case (Cons c r)
  show ?thesis
  proof (cases r)
    case Nil
    with Cons show ?thesis by (simp add: skip_0x_def)
  next
    case (Cons x r')
    with assms \<open>h = c # r\<close> have "is_hex x" by simp
    then have "x \<noteq> CHR ''x'' \<and> x \<noteq> CHR ''X''" by (rule is_hex_not_x)
    with Cons \<open>h = c # r\<close> show ?thesis by (simp add: skip_0x_def)
  qed
qed

lemma dropWhile_isspace_hex:
  assumes "\<forall>c \<in> set h. is_hex c"
  shows "dropWhile isspace h = h"
proof (cases h)
  case Nil
  then show ?thesis by simp
next
  case (Cons c r)
  with assms have "\<not> isspace c" by (simp add: is_hex_not_space)
  with Cons show ?thesis by simp
qed

lemma py_long16_neg_hex:
  assumes "h \<noteq> []" and "\<forall>c \<in> set h. is_hex c"
  shows "py_long16 (CHR ''-'' # h) = Some (- int (hex_value h))"
proof -
  have 1: "dropWhile isspace (CHR ''-'' # h) = CHR ''-'' # h"
    by (simp add: isspace_def)
  have 2: "skip_sign (CHR ''-'' # h) = (- 1, h)"
    by (simp add: skip_sign_def)
  have 3: "skip_0x (dropWhile isspace h) = h"
    using assms(2) by (simp only: dropWhile_isspace_hex skip_0x_hex)
  have 4: "takeWhile is_hex h = h"
    using assms(2) by (simp add: takeWhile_eq_all_conv)
  have 5: "dropWhile is_hex h = []"
    using assms(2) by (simp add: dropWhile_eq_Nil_conv)
  have 6: "dropWhile isspace (skip_L []) = []"
    by (simp add: skip_L_def)
  show ?thesis
    unfolding py_long16_def 1 2 Let_def prod.case 3 4 5 6
    using assms(1) by simp
qed

lemma split_ws1_single:
  assumes "s \<noteq> []" and "\<forall>c \<in> set s. \<not> isspace c"
  shows "split_ws1 s = [s]"
proof -
  from assms obtain c r where s: "s = c # r" and c: "\<not> isspace c"
    by (cases s) auto
  have 1: "dropWhile isspace s = s" using s c by simp
  have 2: "takeWhile (\<lambda>c. \<not> isspace c) s = s"
    using assms(2) by (simp add: takeWhile_eq_all_conv)
  have 3: "dropWhile (\<lambda>c. \<not> isspace c) s = []"
    using assms(2) by (simp add: dropWhile_eq_Nil_conv)
  have 4: "dropWhile isspace [] = []" by simp
  show ?thesis
    unfolding split_ws1_def Let_def 1 2 3 4
    using assms(1) by simp
qed

lemma NumberMatch_init_invalid_number:
  "NumberMatch_init d = Inl (InvalidNumberError x) \<longleftrightarrow>
     (\<exists>s. d = PyStr s \<and>
        (split_ws1 s = [x] \<or> (\<exists>t. split_ws1 s = [t, x] \<and> t \<in> set operator_tokens)) \<and>
        py_long16 x = None)"
proof (cases d)
  case (PyStr s)
  show ?thesis
  proof (cases "s = []")
    case True
    with PyStr show ?thesis by (simp add: init_empty split_ws1_Nil)
  next
    case False
    from split_ws1_shape [of s] show ?thesis
    proof (elim disjE exE)
      assume "split_ws1 s = []"
      with False PyStr show ?thesis by (simp add: init_blank)
    next
      fix y assume "split_ws1 s = [y]"
      with PyStr show ?thesis by (auto simp: init_one split: option.split)
    next
      fix t' h assume "split_ws1 s = [t', h]"
      with PyStr show ?thesis
        using operator_of_None [of t']
        by (cases "operator_of t'") (auto simp: init_two split: option.split)
    qed
  qed
qed (simp_all add: NumberMatch_init_def)

text \<open>
  C8, as the claim states it, fails: \<^verbatim>\<open>long("-5", 16)\<close> is \<open>- 5\<close>, so the
  descriptor \<^verbatim>\<open>-5\<close> constructs a predicate with a negative reference value and no
  error is raised.
\<close>

theorem negative_reference_counterexample:
  "NumberMatch_init (PyStr ''-5'') = Inr \<lparr>nm_matchType = None, nm_value = Some (- 5)\<rparr> \<and>
   NumberMatch_init (PyStr ''-5'') \<noteq> Inl (InvalidNumberError ''-5'')"
  by (simp add: NumberMatch_init_def split_ws1_def isspace_def py_long16_def skip_sign_def
        skip_0x_def skip_L_def is_hex_def hex_digit_def hex_value_def)

text \<open>
  C8, amended. The string parser accepts a sign: a descriptor that is a minus sign
  followed by hexadecimal digits constructs an equality predicate whose reference value
  is the negative number, so a reference value may be negative. Construction fails with
  the invalid-number error naming \<open>x\<close> exactly when \<open>x\<close> is the numeric token of the
  descriptor (alone, or after one of the five operators) and is not read as a base-16
  integer.
\<close>

theorem signed_hex_reference:
  "(h \<noteq> [] \<and> (\<forall>c \<in> set h. is_hex c) \<longrightarrow>
      NumberMatch_init (PyStr (CHR ''-'' # h)) =
        Inr \<lparr>nm_matchType = None, nm_value = Some (- int (hex_value h))\<rparr>) \<and>
   (NumberMatch_init d = Inl (InvalidNumberError x) \<longleftrightarrow>
      (\<exists>s. d = PyStr s \<and>
         (split_ws1 s = [x] \<or> (\<exists>t. split_ws1 s = [t, x] \<and> t \<in> set operator_tokens)) \<and>
         py_long16 x = None))"
proof (intro conjI impI)
  assume a: "h \<noteq> [] \<and> (\<forall>c \<in> set h. is_hex c)"
  then have "\<forall>c \<in> set (CHR ''-'' # h). \<not> isspace c"
    by (simp add: is_hex_not_space) (simp add: isspace_def)
  then have "split_ws1 (CHR ''-'' # h) = [CHR ''-'' # h]"
    by (intro split_ws1_single) simp_all
  from init_one [OF this] a
  show "NumberMatch_init (PyStr (CHR ''-'' # h)) =
        Inr \<lparr>nm_matchType = None, nm_value = Some (- int (hex_value h))\<rparr>"
    by (simp add: py_long16_neg_hex)
qed (rule NumberMatch_init_invalid_number)

theorem signed_hex_reference_witness:
  "is_hex CHR ''1'' \<and> is_hex CHR ''f'' \<and>
   NumberMatch_init (PyStr ''-1f'') = Inr \<lparr>nm_matchType = None, nm_value = Some (- 31)\<rparr> \<and>
   split_ws1 ''xyz'' = [''xyz''] \<and> py_long16 ''xyz'' = None \<and>
   NumberMatch_init (PyStr ''xyz'') = Inl (InvalidNumberError ''xyz'')"
proof -
  have h1: "is_hex CHR ''1''" and h2: "is_hex CHR ''f''"
    by (simp_all add: is_hex_def hex_digit_def)
  then have a: "''1f'' \<noteq> [] \<and> (\<forall>c \<in> set ''1f''. is_hex c)" by simp
  have v: "hex_value ''1f'' = 31"
    by (simp add: hex_value_def hex_digit_def)
  have b: "split_ws1 ''xyz'' = [''xyz'']"
    by (simp add: split_ws1_def isspace_def)
  have c: "py_long16 ''xyz'' = None"
    by (simp add: py_long16_def isspace_def skip_sign_def skip_0x_def skip_L_def is_hex_def
          hex_digit_def)
  have d: "\<exists>s. PyStr ''xyz'' = PyStr s \<and>
      (split_ws1 s = [''xyz''] \<or> (\<exists>t. split_ws1 s = [t, ''xyz''] \<and> t \<in> set operator_tokens)) \<and>
      py_long16 ''xyz'' = None"
    by (intro exI [of _ "''xyz''"] conjI disjI1) (rule refl, rule b, rule c)
  note u = signed_hex_reference [of "''1f''" "PyStr ''xyz''" "''xyz''"]
  have "NumberMatch_init (PyStr (CHR ''-'' # ''1f'')) =
      Inr \<lparr>nm_matchType = None, nm_value = Some (- int (hex_value ''1f''))\<rparr>"
    using conjunct1 [OF u] a by (rule mp)
  then have 1: "NumberMatch_init (PyStr ''-1f'') =
      Inr \<lparr>nm_matchType = None, nm_value = Some (- 31)\<rparr>"
    by (simp only: v) simp
  have 2: "NumberMatch_init (PyStr ''xyz'') = Inl (InvalidNumberError ''xyz'')"
    using conjunct2 [OF u] d by (rule iffD2)
  show ?thesis by (intro conjI) (rule h1, rule h2, rule 1, rule b, rule c, rule 2)
qed

section \<open>The retry policy of the submission client\<close>

lemma backoff_Suc: "backoff ct (Suc j) = ct # backoff (ct * 2) j"
  by (simp add: backoff_def map_upt_Suc mult.assoc del: upt_Suc)

lemma submit_loop_bounded:
  assumes "0 < ct" and "64 < ct * 2 ^ n"
  shows "\<exists>j\<le>n. submit_loop response k ct sl =
             Some (outcome response (k + j), k + j + 1, sl @ backoff ct j) \<and>
           (\<forall>i<j. response (k + i) \<in> set retry_codes \<and> ct * 2 ^ i \<le> 64) \<and>
           (response (k + j) \<in> set retry_codes \<longrightarrow> 64 < ct * 2 ^ j)"
  using assms
proof (induction n arbitrary: k ct sl)
  case 0
  then have "64 < ct" by simp
  then have "submit_loop response k ct sl = Some (outcome response k, Suc k, sl)"
    by (subst submit_loop.simps) (simp add: outcome_def Let_def)
  with \<open>64 < ct\<close> show ?case by (simp add: backoff_def)
next
  case (Suc n)
  show ?case
  proof (cases "response k \<noteq> codes_created \<and> response k \<in> set retry_codes \<and> ct \<le> 64")
    case False
    then have "submit_loop response k ct sl = Some (outcome response k, Suc k, sl)"
      by (subst submit_loop.simps) (auto simp: outcome_def Let_def)
    moreover from False have "response k \<in> set retry_codes \<longrightarrow> 64 < ct"
      by (auto simp: retry_codes_def codes_created_def)
    ultimately have "submit_loop response k ct sl =
             Some (outcome response (k + 0), k + 0 + 1, sl @ backoff ct 0) \<and>
           (\<forall>i<0. response (k + i) \<in> set retry_codes \<and> ct * 2 ^ i \<le> 64) \<and>
           (response (k + 0) \<in> set retry_codes \<longrightarrow> 64 < ct * 2 ^ 0)"
      by (simp add: backoff_def)
    then show ?thesis by blast
  next
    case True
    then have step: "submit_loop response k ct sl =
        submit_loop response (Suc k) (ct * 2) (sl @ [ct])"
      by (subst submit_loop.simps) (simp add: Let_def)
    from Suc.prems have "0 < ct * 2" and "64 < ct * 2 * 2 ^ n"
      by (simp_all add: mult.assoc)
    from Suc.IH [OF this, of "Suc k" "sl @ [ct]"] obtain j where j: "j \<le> n"
      and r: "submit_loop response (Suc k) (ct * 2) (sl @ [ct]) =
             Some (outcome response (Suc k + j), Suc k + j + 1, (sl @ [ct]) @ backoff (ct * 2) j)"
      and b: "\<forall>i<j. response (Suc k + i) \<in> set retry_codes \<and> ct * 2 * 2 ^ i \<le> 64"
      and l: "response (Suc k + j) \<in> set retry_codes \<longrightarrow> 64 < ct * 2 * 2 ^ j"
      by blast
    have 1: "submit_loop response k ct sl =
        Some (outcome response (k + Suc j), k + Suc j + 1, sl @ backoff ct (Suc j))"
      using step r by (simp add: backoff_Suc)
    have 2: "\<forall>i<Suc j. response (k + i) \<in> set retry_codes \<and> ct * 2 ^ i \<le> 64"
    proof (intro allI impI)
      fix i assume "i < Suc j"
      show "response (k + i) \<in> set retry_codes \<and> ct * 2 ^ i \<le> 64"
      proof (cases i)
        case 0
        with True show ?thesis by simp
      next
        case (Suc i')
        with \<open>i < Suc j\<close> b have "response (Suc k + i') \<in> set retry_codes \<and> ct * 2 * 2 ^ i' \<le> 64"
          by simp
        with Suc show ?thesis by (simp add: mult.assoc)
      qed
    qed
    have 3: "response (k + Suc j) \<in> set retry_codes \<longrightarrow> 64 < ct * 2 ^ Suc j"
      using l by (simp add: mult.assoc)
    from j 1 2 3 show ?thesis by (intro exI [of _ "Suc j"]) simp
  qed
qed

lemma backoff_2: "j \<le> 6 \<Longrightarrow> backoff 2 j = take j [2, 4, 8, 16, 32, 64]"
proof -
  assume "j \<le> 6"
  then have "j = 0 \<or> j = 1 \<or> j = 2 \<or> j = 3 \<or> j = 4 \<or> j = 5 \<or> j = 6" by arith
  then show ?thesis
    by (elim disjE) (simp_all add: backoff_def upt_rec)
qed

lemma take_sum_bound: "j \<le> 6 \<Longrightarrow> sum_list (take j [2, 4, 8, 16, 32, 64 :: int]) \<le> 126"
proof -
  assume "j \<le> 6"
  then have "j = 0 \<or> j = 1 \<or> j = 2 \<or> j = 3 \<or> j = 4 \<or> j = 5 \<or> j = 6" by arith
  then show ?thesis
    by (elim disjE) simp_all
qed

text \<open>
  C9. Whatever the server answers, the POST loop returns. It sleeps before a retry
  only after one of the status codes 500, 502, 503, 504; the sleeps are 2, 4, 8, 16,
  32, 64 seconds in this order, at most six of them and at most 126 seconds in all; it
  succeeds at the first created status, and raises at the first status that is
  neither created nor a retry code, or at a retry code once six retries are spent. A
  first answer that is neither created nor a retry code fails at once, with one
  request and no sleep.
\<close>

theorem submit_retry_policy:
  "\<exists>res posts slept.
     submit response = Some (res, posts, slept) \<and>
     posts = length slept + 1 \<and>
     length slept \<le> 6 \<and>
     slept = take (length slept) [2, 4, 8, 16, 32, 64] \<and>
     sum_list slept \<le> 126 \<and>
     (\<forall>i < length slept. response i \<in> set retry_codes) \<and>
     (case res of
        Inr u \<Rightarrow> response (length slept) = codes_created
      | Inl (ServerError c) \<Rightarrow>
          c = response (length slept) \<and> c \<noteq> codes_created \<and>
          (c \<in> set retry_codes \<longrightarrow> length slept = 6)) \<and>
     (response 0 \<noteq> codes_created \<and> response 0 \<notin> set retry_codes \<longrightarrow>
        res = Inl (ServerError (response 0)) \<and> posts = 1 \<and> slept = [])"
proof -
  have "(0::int) < 2" and "(64::int) < 2 * 2 ^ 6" by simp_all
  from submit_loop_bounded [OF this, of response 0 "[]"] obtain j where j: "j \<le> 6"
    and r: "submit response = Some (outcome response j, j + 1, backoff 2 j)"
    and b: "\<forall>i<j. response i \<in> set retry_codes \<and> (2::int) * 2 ^ i \<le> 64"
    and l: "response j \<in> set retry_codes \<longrightarrow> (64::int) < 2 * 2 ^ j"
    by (auto simp: submit_def)
  let ?slept = "backoff 2 j"
  have len: "length ?slept = j" by (simp add: backoff_def)
  have t: "?slept = take j [2, 4, 8, 16, 32, 64]" using j by (rule backoff_2)
  have s: "sum_list ?slept \<le> 126" using j by (simp only: t take_sum_bound)
  have six: "response j \<in> set retry_codes \<Longrightarrow> j = 6"
  proof -
    assume "response j \<in> set retry_codes"
    with l have big: "(64::int) < 2 * 2 ^ j" by simp
    from j have "j = 0 \<or> j = 1 \<or> j = 2 \<or> j = 3 \<or> j = 4 \<or> j = 5 \<or> j = 6" by arith
    then show "j = 6" using big by (elim disjE) simp_all
  qed
  have o: "case outcome response j of
        Inr u \<Rightarrow> response j = codes_created
      | Inl (ServerError c) \<Rightarrow>
          c = response j \<and> c \<noteq> codes_created \<and> (c \<in> set retry_codes \<longrightarrow> j = 6)"
    using six by (simp add: outcome_def)
  show ?thesis
  proof (intro exI conjI)
    show "submit response = Some (outcome response j, j + 1, ?slept)" by (rule r)
    show "j + 1 = length ?slept + 1" by (simp only: len)
    show "length ?slept \<le> 6" using j by (simp only: len)
    show "?slept = take (length ?slept) [2, 4, 8, 16, 32, 64]" by (subst len) (rule t)
    show "sum_list ?slept \<le> 126" by (rule s)
    show "\<forall>i < length ?slept. response i \<in> set retry_codes" using b by (simp only: len) simp
    show "case outcome response j of
        Inr u \<Rightarrow> response (length ?slept) = codes_created
      | Inl (ServerError c) \<Rightarrow>
          c = response (length ?slept) \<and> c \<noteq> codes_created \<and>
          (c \<in> set retry_codes \<longrightarrow> length ?slept = 6)"
      using o by (simp only: len)
    show "response 0 \<noteq> codes_created \<and> response 0 \<notin> set retry_codes \<longrightarrow>
        outcome response j = Inl (ServerError (response 0)) \<and> j + 1 = 1 \<and> ?slept = []"
    proof
      assume a: "response 0 \<noteq> codes_created \<and> response 0 \<notin> set retry_codes"
      have "j = 0"
      proof (rule ccontr)
        assume "j \<noteq> 0"
        then have "0 < j" by simp
        with b have "response 0 \<in> set retry_codes" by blast
        with a show False by simp
      qed
      with a show "outcome response j = Inl (ServerError (response 0)) \<and> j + 1 = 1 \<and> ?slept = []"
        by (simp add: outcome_def backoff_def)
    qed
  qed
qed

lemma submit_flaky: "submit flaky_server = Some (Inr (), 3, [2, 4])"
  unfolding submit_def
  apply (subst submit_loop.simps, simp add: flaky_server_def retry_codes_def codes_created_def)
  apply (subst submit_loop.simps, simp add: flaky_server_def retry_codes_def codes_created_def)
  apply (subst submit_loop.simps, simp add: flaky_server_def retry_codes_def codes_created_def)
  done

lemma submit_failing:
  "submit failing_server = Some (Inl (ServerError 500), 7, [2, 4, 8, 16, 32, 64])"
  unfolding submit_def
  apply (subst submit_loop.simps, simp add: failing_server_def retry_codes_def codes_created_def)
  apply (subst submit_loop.simps, simp add: failing_server_def retry_codes_def codes_created_def)
  apply (subst submit_loop.simps, simp add: failing_server_def retry_codes_def codes_created_def)
  apply (subst submit_loop.simps, simp add: failing_server_def retry_codes_def codes_created_def)
  apply (subst submit_loop.simps, simp add: failing_server_def retry_codes_def codes_created_def)
  apply (subst submit_loop.simps, simp add: failing_server_def retry_codes_def codes_created_def)
  apply (subst submit_loop.simps, simp add: failing_server_def retry_codes_def codes_created_def)
  done

theorem submit_retry_policy_witness:
  "submit flaky_server = Some (Inr (), 3, [2, 4]) \<and>
   flaky_server 0 \<in> set retry_codes \<and> flaky_server 1 \<in> set retry_codes \<and>
   flaky_server 2 = codes_created \<and>
   submit failing_server = Some (Inl (ServerError 500), 7, [2, 4, 8, 16, 32, 64]) \<and>
   sum_list [2, 4, 8, 16, 32, 64 :: int] = 126"
proof -
  from submit_retry_policy [of flaky_server] obtain res posts slept
    where r: "submit flaky_server = Some (res, posts, slept)"
      and q: "\<forall>i < length slept. flaky_server i \<in> set retry_codes"
      and o: "case res of
        Inr u \<Rightarrow> flaky_server (length slept) = codes_created
      | Inl (ServerError c) \<Rightarrow>
          c = flaky_server (length slept) \<and> c \<noteq> codes_created \<and>
          (c \<in> set retry_codes \<longrightarrow> length slept = 6)"
    by blast
  from r submit_flaky have e: "res = Inr ()" "slept = [2, 4]" by simp_all
  from q e have "flaky_server 0 \<in> set retry_codes" "flaky_server 1 \<in> set retry_codes"
    by simp_all
  moreover from o e have "flaky_server 2 = codes_created" by (simp add: numeral_2_eq_2)
  ultimately show ?thesis using submit_flaky submit_failing by simp
qed

end
